theory Spec2Isabelle
  imports Main
begin

section \<open>The password generator of \<^verbatim>\<open>src/main.py\<close>\<close>

text \<open>
  The class \<^verbatim>\<open>PasswordGenerator\<close> holds four constant strings, set in its constructor,
  and two methods: \<^verbatim>\<open>generate_password\<close>, which assembles a character pool, draws
  \<^verbatim>\<open>length\<close> characters from it with \<^verbatim>\<open>secrets.choice\<close> and redraws until
  \<^verbatim>\<open>_password_meets_requirements\<close> accepts the string, and that predicate.

  Python strings are modelled as \<^typ>\<open>string\<close> (a character is a \<^typ>\<open>char\<close>, and
  \<^verbatim>\<open>c in s\<close> for a one-character \<^verbatim>\<open>c\<close> is membership in \<open>set s\<close>), the optional argument
  \<^verbatim>\<open>custom_special\<close> as \<^typ>\<open>string option\<close> (\<^verbatim>\<open>None\<close> is \<^term>\<open>None\<close>), the
  argument \<^verbatim>\<open>length\<close> as an \<^typ>\<open>int\<close>. The random source is a sequence of raw
  values \<open>rnd :: nat \<Rightarrow> nat\<close> read at a position that advances by one with every call
  of \<^verbatim>\<open>secrets.choice\<close>; a theorem about every \<open>rnd\<close> is a theorem about every
  sequence of random draws. An exception is a value \<open>Inl e\<close>, and a call that does not
  return is the value \<^term>\<open>None\<close>.
\<close>

subsection \<open>The character classes (lines 18 to 21)\<close>

definition lowercase_chars :: string where
  "lowercase_chars = ''abcdefghijklmnopqrstuvwxyz''"

definition uppercase_chars :: string where
  "uppercase_chars = ''ABCDEFGHIJKLMNOPQRSTUVWXYZ''"

definition digit_chars :: string where
  "digit_chars = ''0123456789''"

text \<open>
  The default special characters; the backslash, the single quote and the double quote
  of the Python literal are written by their codes \<open>0x5C\<close>, \<open>0x27\<close> and \<open>0x22\<close>.
\<close>

definition special_chars :: string where
  "special_chars =
     ''!@#$%^&*()-_=+[{]}'' @ [CHR 0x5C] @ ''|;:'' @ [CHR 0x27, CHR 0x22] @ '',<.>/?''"

subsection \<open>Errors\<close>

datatype error = ValueError | IndexError

subsection \<open>Truth value of the optional custom string\<close>

text \<open>
  \<^verbatim>\<open>if custom_special:\<close> holds for a string that is neither \<^verbatim>\<open>None\<close> nor empty.
\<close>

fun truthy :: "string option \<Rightarrow> bool" where
  "truthy None = False"
| "truthy (Some s) = (s \<noteq> [])"

subsection \<open>The character pool (lines 40 to 51)\<close>

text \<open>The value of the local variable \<^verbatim>\<open>chars\<close> after the four tests.\<close>

definition chars :: "bool \<Rightarrow> bool \<Rightarrow> bool \<Rightarrow> bool \<Rightarrow> string option \<Rightarrow> string" where
  "chars use_lowercase use_uppercase use_digits use_special custom_special =
     (let c0 = [];
          c1 = (if use_lowercase then c0 @ lowercase_chars else c0);
          c2 = (if use_uppercase then c1 @ uppercase_chars else c1);
          c3 = (if use_digits then c2 @ digit_chars else c2)
      in if use_special then
           (if truthy custom_special then c3 @ the custom_special
            else c3 @ special_chars)
         else c3)"

subsection \<open>The requirement check (lines 76 to 93)\<close>

definition password_meets_requirements ::
  "string \<Rightarrow> bool \<Rightarrow> bool \<Rightarrow> bool \<Rightarrow> bool \<Rightarrow> string option \<Rightarrow> bool" where
  "password_meets_requirements password use_lowercase use_uppercase use_digits
       use_special custom_special =
     (if use_lowercase \<and> \<not> list_ex (\<lambda>c. c \<in> set lowercase_chars) password then False
      else if use_uppercase \<and> \<not> list_ex (\<lambda>c. c \<in> set uppercase_chars) password then False
      else if use_digits \<and> \<not> list_ex (\<lambda>c. c \<in> set digit_chars) password then False
      else if use_special then
        (let special_set = (if truthy custom_special then the custom_special
                            else special_chars)
         in if \<not> list_ex (\<lambda>c. c \<in> set special_set) password then False else True)
      else True)"

subsection \<open>Drawing characters (lines 58 and 68)\<close>

text \<open>
  \<^verbatim>\<open>secrets.choice(seq)\<close> raises \<^verbatim>\<open>IndexError\<close> on an empty sequence and returns
  \<^verbatim>\<open>seq[randbelow(len(seq))]\<close> otherwise; the raw value \<open>r\<close> of the random source
  gives the index \<open>r mod len(seq)\<close>, so every index is the outcome of some \<open>r\<close>.
\<close>

definition choice :: "string \<Rightarrow> nat \<Rightarrow> error + char" where
  "choice seq r = (if seq = [] then Inl IndexError else Inr (seq ! (r mod length seq)))"

text \<open>
  \<^verbatim>\<open>''.join(secrets.choice(chars) for _ in range(n))\<close>: \<open>n\<close> calls in a row, reading
  the random source from position \<open>pos\<close> on; the first exception ends the whole draw.
\<close>

fun join_choices :: "(nat \<Rightarrow> nat) \<Rightarrow> nat \<Rightarrow> string \<Rightarrow> nat \<Rightarrow> error + string" where
  "join_choices rnd pos seq 0 = Inr []"
| "join_choices rnd pos seq (Suc n) =
     (case choice seq (rnd pos) of
        Inl e \<Rightarrow> Inl e
      | Inr c \<Rightarrow>
          (case join_choices rnd (Suc pos) seq n of
             Inl e \<Rightarrow> Inl e
           | Inr rest \<Rightarrow> Inr (c # rest)))"

text \<open>\<^verbatim>\<open>range(length)\<close> is empty for \<^verbatim>\<open>length <= 0\<close>, as \<^term>\<open>nat len\<close> is \<open>0\<close> there.\<close>

definition draw :: "(nat \<Rightarrow> nat) \<Rightarrow> nat \<Rightarrow> string \<Rightarrow> int \<Rightarrow> error + string" where
  "draw rnd pos seq len = join_choices rnd pos seq (nat len)"

subsection \<open>The rejection loop (lines 67 to 74)\<close>

text \<open>
  The \<^verbatim>\<open>while not has_requirements\<close> loop with the \<^verbatim>\<open>return password\<close> after it.
  Its state is the position in the random source and the two local variables
  \<^verbatim>\<open>password\<close> and \<^verbatim>\<open>has_requirements\<close>. The loop has no bound, so the function is
  partial: \<^term>\<open>None\<close> is a run that never leaves the loop.
\<close>

partial_function (option) redraw ::
  "(nat \<Rightarrow> nat) \<Rightarrow> string \<Rightarrow> int \<Rightarrow> bool \<Rightarrow> bool \<Rightarrow> bool \<Rightarrow> bool \<Rightarrow> string option \<Rightarrow>
     nat \<Rightarrow> string \<Rightarrow> bool \<Rightarrow> (error + string) option" where
  "redraw rnd seq len use_lowercase use_uppercase use_digits use_special custom_special
       pos password has_requirements =
     (if \<not> has_requirements then
        (case draw rnd pos seq len of
           Inl e \<Rightarrow> Some (Inl e)
         | Inr password' \<Rightarrow>
             redraw rnd seq len use_lowercase use_uppercase use_digits use_special
               custom_special (pos + nat len) password'
               (password_meets_requirements password' use_lowercase use_uppercase
                  use_digits use_special custom_special))
      else Some (Inr password))"

declare redraw.simps [code]

subsection \<open>\<^verbatim>\<open>generate_password\<close> (lines 23 to 74)\<close>

definition generate_password ::
  "(nat \<Rightarrow> nat) \<Rightarrow> int \<Rightarrow> bool \<Rightarrow> bool \<Rightarrow> bool \<Rightarrow> bool \<Rightarrow> string option \<Rightarrow>
     (error + string) option" where
  "generate_password rnd len use_lowercase use_uppercase use_digits use_special
       custom_special =
     (let seq = chars use_lowercase use_uppercase use_digits use_special custom_special
      in if seq = [] then Some (Inl ValueError)
         else
           (case draw rnd 0 seq len of
              Inl e \<Rightarrow> Some (Inl e)
            | Inr password \<Rightarrow>
                redraw rnd seq len use_lowercase use_uppercase use_digits use_special
                  custom_special (nat len) password
                  (password_meets_requirements password use_lowercase use_uppercase
                     use_digits use_special custom_special)))"

subsection \<open>Notions of the specification\<close>

text \<open>
  The special class of a configuration, in the specification's words: the custom string
  when one is supplied non-empty, the built-in default set otherwise. It is compared below
  with what the code computes from the truth value of \<^verbatim>\<open>custom_special\<close>.
\<close>

definition special_class :: "string option \<Rightarrow> string" where
  "special_class custom_special =
     (case custom_special of
        None \<Rightarrow> special_chars
      | Some s \<Rightarrow> if s = [] then special_chars else s)"

text \<open>
  The characters of the lowercase, uppercase and digit classes whose flags are set.
\<close>

definition enabled_classes :: "bool \<Rightarrow> bool \<Rightarrow> bool \<Rightarrow> char set" where
  "enabled_classes use_lowercase use_uppercase use_digits =
     (if use_lowercase then set lowercase_chars else {}) \<union>
     (if use_uppercase then set uppercase_chars else {}) \<union>
     (if use_digits then set digit_chars else {})"

text \<open>
  A string is accepted for a pool and a configuration when it has the requested number of
  characters, all of them from the pool, and passes the requirement check.
\<close>

definition accepted :: "string \<Rightarrow> int \<Rightarrow> bool \<Rightarrow> bool \<Rightarrow> bool \<Rightarrow> bool \<Rightarrow> string option \<Rightarrow> string \<Rightarrow> bool" where
  "accepted seq len ul uu ud us cs pw =
     (length pw = nat len \<and> set pw \<subseteq> set seq \<and> password_meets_requirements pw ul uu ud us cs)"

section \<open>Properties of the building blocks\<close>

lemma join_choices_nonempty:
  "seq \<noteq> [] \<Longrightarrow>
   \<exists>pw. join_choices rnd pos seq n = Inr pw \<and> length pw = n \<and> set pw \<subseteq> set seq"
proof (induction n arbitrary: pos)
  case 0
  show ?case by simp
next
  case (Suc n)
  from Suc.IH [OF Suc.prems, of "Suc pos"] obtain rest where
    rest: "join_choices rnd (Suc pos) seq n = Inr rest" "length rest = n" "set rest \<subseteq> set seq"
    by blast
  from Suc.prems have "rnd pos mod length seq < length seq" by simp
  then have "seq ! (rnd pos mod length seq) \<in> set seq" by (rule nth_mem)
  with rest Suc.prems show ?case by (simp add: choice_def)
qed

lemma draw_nonempty:
  "seq \<noteq> [] \<Longrightarrow>
   \<exists>pw. draw rnd pos seq len = Inr pw \<and> length pw = nat len \<and> set pw \<subseteq> set seq"
  unfolding draw_def by (rule join_choices_nonempty)

lemma draw_empty: "len \<le> 0 \<Longrightarrow> draw rnd pos seq len = Inr []"
  by (simp add: draw_def)

lemma redraw_result:
  assumes run: "redraw rnd seq len ul uu ud us cs pos password has = Some y"
    and nonempty: "seq \<noteq> []"
    and start: "has \<Longrightarrow> accepted seq len ul uu ud us cs password"
  shows "\<exists>pw. y = Inr pw \<and> accepted seq len ul uu ud us cs pw"
proof -
  have "seq \<noteq> [] \<longrightarrow> (has \<longrightarrow> accepted seq len ul uu ud us cs password) \<longrightarrow>
        (\<exists>pw. y = Inr pw \<and> accepted seq len ul uu ud us cs pw)"
  proof (rule redraw.raw_induct [where P = "\<lambda>rnd seq len ul uu ud us cs pos password has y.
      seq \<noteq> [] \<longrightarrow> (has \<longrightarrow> accepted seq len ul uu ud us cs password) \<longrightarrow>
      (\<exists>pw. y = Inr pw \<and> accepted seq len ul uu ud us cs pw)", OF _ run])
    fix redraw' rnd seq len ul uu ud us cs pos password has y
    assume IH: "\<And>rnd seq len ul uu ud us cs pos password has y.
        redraw' rnd seq len ul uu ud us cs pos password has = Some y \<Longrightarrow>
        seq \<noteq> [] \<longrightarrow> (has \<longrightarrow> accepted seq len ul uu ud us cs password) \<longrightarrow>
        (\<exists>pw. y = Inr pw \<and> accepted seq len ul uu ud us cs pw)"
      and step: "(if \<not> has then
          (case draw rnd pos seq len of
             Inl e \<Rightarrow> Some (Inl e)
           | Inr password' \<Rightarrow>
               redraw' rnd seq len ul uu ud us cs (pos + nat len) password'
                 (password_meets_requirements password' ul uu ud us cs))
          else Some (Inr password)) = Some y"
    show "seq \<noteq> [] \<longrightarrow> (has \<longrightarrow> accepted seq len ul uu ud us cs password) \<longrightarrow>
          (\<exists>pw. y = Inr pw \<and> accepted seq len ul uu ud us cs pw)"
    proof (intro impI)
      assume ne: "seq \<noteq> []" and acc: "has \<longrightarrow> accepted seq len ul uu ud us cs password"
      show "\<exists>pw. y = Inr pw \<and> accepted seq len ul uu ud us cs pw"
      proof (cases has)
        case True
        with step have "y = Inr password" by simp
        with True acc show ?thesis by blast
      next
        case False
        from draw_nonempty [OF ne, of rnd pos len] obtain pw' where
          pw': "draw rnd pos seq len = Inr pw'" "length pw' = nat len" "set pw' \<subseteq> set seq"
          by blast
        let ?has' = "password_meets_requirements pw' ul uu ud us cs"
        from False step pw' have
          "redraw' rnd seq len ul uu ud us cs (pos + nat len) pw' ?has' = Some y"
          by simp
        moreover from pw' have "?has' \<longrightarrow> accepted seq len ul uu ud us cs pw'"
          by (simp add: accepted_def)
        ultimately show ?thesis using IH ne by blast
      qed
    qed
  qed
  with nonempty start show ?thesis by blast
qed

lemma redraw_transfer:
  assumes run: "redraw rnd seq len ul uu ud us cs pos password has = Some y"
    and same: "\<And>pw. password_meets_requirements pw ul uu ud us cs =
               password_meets_requirements pw ul' uu' ud' us' cs'"
  shows "redraw rnd seq len ul' uu' ud' us' cs' pos password has = Some y"
proof -
  have "(\<forall>pw. password_meets_requirements pw ul uu ud us cs =
               password_meets_requirements pw ul' uu' ud' us' cs') \<longrightarrow>
        redraw rnd seq len ul' uu' ud' us' cs' pos password has = Some y"
  proof (rule redraw.raw_induct [where P = "\<lambda>rnd seq len ul uu ud us cs pos password has y.
      (\<forall>pw. password_meets_requirements pw ul uu ud us cs =
               password_meets_requirements pw ul' uu' ud' us' cs') \<longrightarrow>
        redraw rnd seq len ul' uu' ud' us' cs' pos password has = Some y", OF _ run])
    fix redraw' rnd seq len ul uu ud us cs pos password has y
    assume IH: "\<And>rnd seq len ul uu ud us cs pos password has y.
        redraw' rnd seq len ul uu ud us cs pos password has = Some y \<Longrightarrow>
        (\<forall>pw. password_meets_requirements pw ul uu ud us cs =
               password_meets_requirements pw ul' uu' ud' us' cs') \<longrightarrow>
        redraw rnd seq len ul' uu' ud' us' cs' pos password has = Some y"
      and step: "(if \<not> has then
          (case draw rnd pos seq len of
             Inl e \<Rightarrow> Some (Inl e)
           | Inr password' \<Rightarrow>
               redraw' rnd seq len ul uu ud us cs (pos + nat len) password'
                 (password_meets_requirements password' ul uu ud us cs))
          else Some (Inr password)) = Some y"
    show "(\<forall>pw. password_meets_requirements pw ul uu ud us cs =
               password_meets_requirements pw ul' uu' ud' us' cs') \<longrightarrow>
        redraw rnd seq len ul' uu' ud' us' cs' pos password has = Some y"
    proof (intro impI)
      assume eq: "\<forall>pw. password_meets_requirements pw ul uu ud us cs =
               password_meets_requirements pw ul' uu' ud' us' cs'"
      show "redraw rnd seq len ul' uu' ud' us' cs' pos password has = Some y"
      proof (cases has)
        case True
        with step have "y = Inr password" by simp
        with True show ?thesis by (subst redraw.simps) simp
      next
        case False
        note nhas = this
        show ?thesis
        proof (cases "draw rnd pos seq len")
          case (Inl e)
          with nhas step have "y = Inl e" by simp
          with nhas Inl show ?thesis by (subst redraw.simps) simp
        next
          case (Inr pw')
          with nhas step have
            "redraw' rnd seq len ul uu ud us cs (pos + nat len) pw'
               (password_meets_requirements pw' ul uu ud us cs) = Some y"
            by simp
          from IH [OF this] eq have
            "redraw rnd seq len ul' uu' ud' us' cs' (pos + nat len) pw'
               (password_meets_requirements pw' ul uu ud us cs) = Some y"
            by blast
          with eq have
            "redraw rnd seq len ul' uu' ud' us' cs' (pos + nat len) pw'
               (password_meets_requirements pw' ul' uu' ud' us' cs') = Some y"
            by simp
          with nhas Inr show ?thesis by (subst redraw.simps) simp
        qed
      qed
    qed
  qed
  with same show ?thesis by blast
qed

lemma redraw_cong_requirements:
  assumes "\<And>pw. password_meets_requirements pw ul uu ud us cs =
               password_meets_requirements pw ul' uu' ud' us' cs'"
  shows "redraw rnd seq len ul uu ud us cs pos password has =
         redraw rnd seq len ul' uu' ud' us' cs' pos password has"
proof (cases "redraw rnd seq len ul uu ud us cs pos password has")
  case (Some y)
  from redraw_transfer [OF Some assms] Some show ?thesis by simp
next
  case None
  note left = this
  show ?thesis
  proof (cases "redraw rnd seq len ul' uu' ud' us' cs' pos password has")
    case None
    with left show ?thesis by simp
  next
    case (Some y)
    from redraw_transfer [OF Some assms [symmetric]] left show ?thesis by simp
  qed
qed

lemma redraw_never:
  assumes "\<And>pw. length pw = nat len \<Longrightarrow> \<not> password_meets_requirements pw ul uu ud us cs"
    and "seq \<noteq> []"
  shows "redraw rnd seq len ul uu ud us cs pos password False = None"
proof (cases "redraw rnd seq len ul uu ud us cs pos password False")
  case None
  then show ?thesis .
next
  case (Some y)
  from redraw_result [OF Some \<open>seq \<noteq> []\<close>] obtain pw where
    "accepted seq len ul uu ud us cs pw" by blast
  with assms(1) [of pw] show ?thesis by (simp add: accepted_def)
qed

lemma classes_nonempty:
  "lowercase_chars \<noteq> []" "uppercase_chars \<noteq> []" "digit_chars \<noteq> []" "special_chars \<noteq> []"
  by (simp_all add: lowercase_chars_def uppercase_chars_def digit_chars_def special_chars_def)

lemma special_class_truthy:
  "(if truthy cs then the cs else special_chars) = special_class cs"
  by (cases cs) (simp_all add: special_class_def)

lemma special_class_nonempty: "special_class cs \<noteq> []"
  by (cases cs) (simp_all add: special_class_def classes_nonempty)

lemma chars_append:
  "chars ul uu ud us cs =
     (if ul then lowercase_chars else []) @ (if uu then uppercase_chars else []) @
     (if ud then digit_chars else []) @ (if us then special_class cs else [])"
  by (cases cs) (simp_all add: chars_def Let_def special_class_def)

lemma chars_empty_iff: "chars ul uu ud us cs = [] \<longleftrightarrow> \<not> ul \<and> \<not> uu \<and> \<not> ud \<and> \<not> us"
  by (simp add: chars_append classes_nonempty special_class_nonempty)

lemma set_chars:
  "set (chars ul uu ud us cs) =
     (if ul then set lowercase_chars else {}) \<union> (if uu then set uppercase_chars else {}) \<union>
     (if ud then set digit_chars else {}) \<union> (if us then set (special_class cs) else {})"
  by (simp add: chars_append Un_assoc)

lemma meets_iff:
  "password_meets_requirements pw ul uu ud us cs \<longleftrightarrow>
     (ul \<longrightarrow> (\<exists>c\<in>set pw. c \<in> set lowercase_chars)) \<and>
     (uu \<longrightarrow> (\<exists>c\<in>set pw. c \<in> set uppercase_chars)) \<and>
     (ud \<longrightarrow> (\<exists>c\<in>set pw. c \<in> set digit_chars)) \<and>
     (us \<longrightarrow> (\<exists>c\<in>set pw. c \<in> set (special_class cs)))"
  by (simp add: password_meets_requirements_def Let_def special_class_truthy list_ex_iff)

lemma generate_password_Inr:
  assumes run: "generate_password rnd len ul uu ud us cs = Some (Inr pw)"
  shows "accepted (chars ul uu ud us cs) len ul uu ud us cs pw"
proof -
  let ?seq = "chars ul uu ud us cs"
  from run have ne: "?seq \<noteq> []"
    by (auto simp: generate_password_def Let_def)
  from draw_nonempty [OF ne, of rnd 0 len] obtain p0 where
    p0: "draw rnd 0 ?seq len = Inr p0" "length p0 = nat len" "set p0 \<subseteq> set ?seq"
    by blast
  let ?has = "password_meets_requirements p0 ul uu ud us cs"
  from run ne p0 have loop: "redraw rnd ?seq len ul uu ud us cs (nat len) p0 ?has = Some (Inr pw)"
    by (simp add: generate_password_def Let_def)
  from p0 have "?has \<Longrightarrow> accepted ?seq len ul uu ud us cs p0"
    by (simp add: accepted_def)
  from redraw_result [OF loop ne this] show ?thesis by simp
qed

lemma generate_password_Inl:
  "generate_password rnd len ul uu ud us cs = Some (Inl e) \<longleftrightarrow>
     chars ul uu ud us cs = [] \<and> e = ValueError"
proof (cases "chars ul uu ud us cs = []")
  case True
  then show ?thesis by (auto simp: generate_password_def Let_def)
next
  case False
  let ?seq = "chars ul uu ud us cs"
  from draw_nonempty [OF False, of rnd 0 len] obtain p0 where
    p0: "draw rnd 0 ?seq len = Inr p0" "length p0 = nat len" "set p0 \<subseteq> set ?seq"
    by blast
  let ?has = "password_meets_requirements p0 ul uu ud us cs"
  have "generate_password rnd len ul uu ud us cs \<noteq> Some (Inl e)"
  proof
    assume "generate_password rnd len ul uu ud us cs = Some (Inl e)"
    with False p0 have loop: "redraw rnd ?seq len ul uu ud us cs (nat len) p0 ?has = Some (Inl e)"
      by (simp add: generate_password_def Let_def)
    from p0 have "?has \<Longrightarrow> accepted ?seq len ul uu ud us cs p0"
      by (simp add: accepted_def)
    from redraw_result [OF loop False this] show False by simp
  qed
  with False show ?thesis by simp
qed

lemma generate_password_cong_requirements:
  assumes "chars ul uu ud us cs = chars ul' uu' ud' us' cs'"
    and "\<And>pw. password_meets_requirements pw ul uu ud us cs =
               password_meets_requirements pw ul' uu' ud' us' cs'"
  shows "generate_password rnd len ul uu ud us cs = generate_password rnd len ul' uu' ud' us' cs'"
proof -
  have "\<And>pos p has. redraw rnd (chars ul' uu' ud' us' cs') len ul uu ud us cs pos p has =
      redraw rnd (chars ul' uu' ud' us' cs') len ul' uu' ud' us' cs' pos p has"
    by (rule redraw_cong_requirements) (rule assms(2))
  with assms show ?thesis
    by (simp add: generate_password_def Let_def cong: sum.case_cong)
qed

lemma generate_password_never:
  assumes "\<And>pw. length pw = nat len \<Longrightarrow> \<not> password_meets_requirements pw ul uu ud us cs"
    and "chars ul uu ud us cs \<noteq> []"
  shows "generate_password rnd len ul uu ud us cs = None"
proof -
  let ?seq = "chars ul uu ud us cs"
  from draw_nonempty [OF assms(2), of rnd 0 len] obtain p0 where
    p0: "draw rnd 0 ?seq len = Inr p0" "length p0 = nat len" "set p0 \<subseteq> set ?seq"
    by blast
  from assms(1) [OF p0(2)] have "\<not> password_meets_requirements p0 ul uu ud us cs" .
  with p0 assms(2) redraw_never [OF assms, where rnd = rnd and pos = "nat len" and password = p0]
  show ?thesis
    by (simp add: generate_password_def Let_def)
qed

lemma classes_disjoint:
  "set lowercase_chars \<inter> set uppercase_chars = {}"
  "set lowercase_chars \<inter> set digit_chars = {}"
  "set uppercase_chars \<inter> set digit_chars = {}"
  by (simp_all add: lowercase_chars_def uppercase_chars_def digit_chars_def)

lemma set_chars_classes:
  "set (chars ul uu ud us cs) =
     enabled_classes ul uu ud \<union> (if us then set (special_class cs) else {})"
  by (simp add: set_chars enabled_classes_def)

lemma generate_password_accept_first:
  assumes "draw rnd 0 (chars ul uu ud us cs) len = Inr p0"
    and "chars ul uu ud us cs \<noteq> []"
    and "password_meets_requirements p0 ul uu ud us cs"
  shows "generate_password rnd len ul uu ud us cs = Some (Inr p0)"
proof -
  from assms(3) have
    "redraw rnd (chars ul uu ud us cs) len ul uu ud us cs (nat len) p0
       (password_meets_requirements p0 ul uu ud us cs) = Some (Inr p0)"
    by (subst redraw.simps) simp
  with assms(1,2) show ?thesis
    by (simp add: generate_password_def Let_def)
qed

section \<open>The claims\<close>

text \<open>
  Claim C1. For every configuration with at least one inclusion flag true and length at
  least 1, a password returned by \<^verbatim>\<open>generate_password\<close> contains at least one character
  from the class of every flag that is set; for the special class that is the custom string
  when one is supplied non-empty, and the built-in default set otherwise.
\<close>

theorem C1_required_classes_present:
  assumes "use_lowercase \<or> use_uppercase \<or> use_digits \<or> use_special"
    and "1 \<le> len"
    and "generate_password rnd len use_lowercase use_uppercase use_digits use_special
           custom_special = Some (Inr pw)"
  shows "(use_lowercase \<longrightarrow> (\<exists>c\<in>set pw. c \<in> set lowercase_chars)) \<and>
         (use_uppercase \<longrightarrow> (\<exists>c\<in>set pw. c \<in> set uppercase_chars)) \<and>
         (use_digits \<longrightarrow> (\<exists>c\<in>set pw. c \<in> set digit_chars)) \<and>
         (use_special \<longrightarrow>
            (\<exists>c\<in>set pw. c \<in> set (case custom_special of
                                      None \<Rightarrow> special_chars
                                    | Some s \<Rightarrow> if s = [] then special_chars else s)))"
proof -
  from generate_password_Inr [OF assms(3)] have
    "password_meets_requirements pw use_lowercase use_uppercase use_digits use_special
       custom_special"
    by (simp add: accepted_def)
  then show ?thesis by (simp add: meets_iff special_class_def)
qed

text \<open>
  The theorem at a run whose first draw \<open>xy\<close> is rejected for want of a digit and whose
  second draw \<open>z0\<close> is returned.
\<close>

theorem C1_required_classes_present_witness:
  "generate_password (\<lambda>i. 23 + i) 2 True False True False None = Some (Inr ''z0'') \<and>
   list_ex (\<lambda>c. c \<in> set lowercase_chars) ''z0'' \<and>
   list_ex (\<lambda>c. c \<in> set digit_chars) ''z0''"
proof -
  have run: "generate_password (\<lambda>i. 23 + i) 2 True False True False None = Some (Inr ''z0'')"
    by code_simp
  have flags: "True \<or> False \<or> True \<or> False" by simp
  have len: "(1::int) \<le> 2" by simp
  from C1_required_classes_present [OF flags len run] run show ?thesis
    by (simp add: list_ex_iff)
qed

text \<open>
  Claim C2. For every configuration with at least one inclusion flag true and length at
  least 1, a password returned by \<^verbatim>\<open>generate_password\<close> has exactly \<^verbatim>\<open>length\<close>
  characters.
\<close>

theorem C2_exact_length:
  assumes "use_lowercase \<or> use_uppercase \<or> use_digits \<or> use_special"
    and "1 \<le> len"
    and "generate_password rnd len use_lowercase use_uppercase use_digits use_special
           custom_special = Some (Inr pw)"
  shows "int (length pw) = len"
proof -
  from generate_password_Inr [OF assms(3)] have "length pw = nat len"
    by (simp add: accepted_def)
  with assms(2) show ?thesis by simp
qed

text \<open>The theorem at a run with all four flags set and a custom special string.\<close>

theorem C2_exact_length_witness:
  "generate_password (\<lambda>i. 7 * i + 3) 6 True True True True (Some ''#~'') =
     Some (Inr ''PW3#fm'') \<and>
   int (length ''PW3#fm'') = 6"
proof -
  have run: "generate_password (\<lambda>i. 7 * i + 3) 6 True True True True (Some ''#~'') =
      Some (Inr ''PW3#fm'')"
    by code_simp
  have flags: "True \<or> True \<or> True \<or> True" by simp
  have len: "(1::int) \<le> 6" by simp
  from C2_exact_length [OF flags len run] run show ?thesis by simp
qed

text \<open>
  Claim C3. For every configuration with at least one inclusion flag true and length at
  least 1, every character of the returned password is an element of the character pool,
  and the pool is the union of the class ranges whose flags are true, the custom string
  standing for the default special range when it is supplied non-empty.
\<close>

theorem C3_characters_from_pool:
  assumes "use_lowercase \<or> use_uppercase \<or> use_digits \<or> use_special"
    and "1 \<le> len"
    and "generate_password rnd len use_lowercase use_uppercase use_digits use_special
           custom_special = Some (Inr pw)"
  shows "set pw \<subseteq> set (chars use_lowercase use_uppercase use_digits use_special custom_special) \<and>
         set (chars use_lowercase use_uppercase use_digits use_special custom_special) =
           enabled_classes use_lowercase use_uppercase use_digits \<union>
           (if use_special then set (special_class custom_special) else {})"
proof -
  from generate_password_Inr [OF assms(3)] have
    "set pw \<subseteq> set (chars use_lowercase use_uppercase use_digits use_special custom_special)"
    by (simp add: accepted_def)
  then show ?thesis by (simp add: set_chars_classes)
qed

text \<open>The theorem at length 8 with the lowercase and digit flags set.\<close>

theorem C3_characters_from_pool_witness:
  "generate_password (\<lambda>i. 13 * i + 3) 8 True False True False None = Some (Inr ''dq3gt6jw'') \<and>
   set ''dq3gt6jw'' \<subseteq> set (chars True False True False None) \<and>
   set (chars True False True False None) = set lowercase_chars \<union> set digit_chars"
proof -
  have run: "generate_password (\<lambda>i. 13 * i + 3) 8 True False True False None =
      Some (Inr ''dq3gt6jw'')"
    by code_simp
  have flags: "True \<or> False \<or> True \<or> False" by simp
  have len: "(1::int) \<le> 8" by simp
  from C3_characters_from_pool [OF flags len run] have
    sub: "set ''dq3gt6jw'' \<subseteq> set (chars True False True False None)" and
    pool: "set (chars True False True False None) =
      enabled_classes True False True \<union> (if False then set (special_class None) else {})"
    by blast+
  from pool have "set (chars True False True False None) = set lowercase_chars \<union> set digit_chars"
    by (simp add: enabled_classes_def)
  with run sub show ?thesis by blast
qed

text \<open>
  Claim C4. \<^verbatim>\<open>generate_password\<close> raises an error, and returns no password, if and only
  if the assembled pool is empty; the pool is empty exactly when all four flags are false,
  so with at least one flag true no error is raised.
\<close>

theorem C4_error_iff_pool_empty:
  "((\<exists>e. generate_password rnd len use_lowercase use_uppercase use_digits use_special
            custom_special = Some (Inl e)) \<longleftrightarrow>
      chars use_lowercase use_uppercase use_digits use_special custom_special = []) \<and>
   (chars use_lowercase use_uppercase use_digits use_special custom_special = [] \<longrightarrow>
      generate_password rnd len use_lowercase use_uppercase use_digits use_special
        custom_special = Some (Inl ValueError)) \<and>
   (chars use_lowercase use_uppercase use_digits use_special custom_special = [] \<longleftrightarrow>
      \<not> use_lowercase \<and> \<not> use_uppercase \<and> \<not> use_digits \<and> \<not> use_special) \<and>
   (use_lowercase \<or> use_uppercase \<or> use_digits \<or> use_special \<longrightarrow>
      (\<forall>e. generate_password rnd len use_lowercase use_uppercase use_digits use_special
             custom_special \<noteq> Some (Inl e)))"
  by (simp add: generate_password_Inl chars_empty_iff)

text \<open>
  The theorem at a configuration with no flag set, where the \<^verbatim>\<open>ValueError\<close> is raised,
  and at one with the special flag set and an empty custom string, where it is not.
\<close>

theorem C4_error_iff_pool_empty_witness:
  "generate_password (\<lambda>i. i) 3 False False False False (Some ''#'') = Some (Inl ValueError) \<and>
   chars False False False False (Some ''#'') = [] \<and>
   generate_password (\<lambda>i. i) 3 False False False True (Some []) \<noteq> Some (Inl ValueError) \<and>
   chars False False False True (Some []) \<noteq> []"
  using C4_error_iff_pool_empty [of "\<lambda>i. i" 3 False False False False "Some ''#''"]
    C4_error_iff_pool_empty [of "\<lambda>i. i" 3 False False False True "Some []"]
  by simp

text \<open>
  Claim C5. With the special flag true and a non-empty custom special string, the default
  special set adds nothing to the pool: every character of the returned password outside
  the other enabled classes is in the custom string, and no character of the password is a
  default special character outside both the custom string and the other enabled classes.
\<close>

theorem C5_custom_replaces_default:
  assumes "s \<noteq> []"
    and "generate_password rnd len use_lowercase use_uppercase use_digits True (Some s) =
           Some (Inr pw)"
  shows "chars use_lowercase use_uppercase use_digits True (Some s) =
           (if use_lowercase then lowercase_chars else []) @
           (if use_uppercase then uppercase_chars else []) @
           (if use_digits then digit_chars else []) @ s \<and>
         (\<forall>c\<in>set pw. c \<notin> enabled_classes use_lowercase use_uppercase use_digits \<longrightarrow>
                      c \<in> set s) \<and>
         \<not> (\<exists>c\<in>set pw. c \<in> set special_chars \<and> c \<notin> set s \<and>
                        c \<notin> enabled_classes use_lowercase use_uppercase use_digits)"
proof -
  from assms(1) have cls: "special_class (Some s) = s"
    by (simp add: special_class_def)
  from generate_password_Inr [OF assms(2)] have
    "set pw \<subseteq> set (chars use_lowercase use_uppercase use_digits True (Some s))"
    by (simp add: accepted_def)
  with cls have sub: "set pw \<subseteq> enabled_classes use_lowercase use_uppercase use_digits \<union> set s"
    by (simp add: set_chars_classes)
  have pool: "chars use_lowercase use_uppercase use_digits True (Some s) =
           (if use_lowercase then lowercase_chars else []) @
           (if use_uppercase then uppercase_chars else []) @
           (if use_digits then digit_chars else []) @ s"
    using cls by (simp add: chars_append)
  from sub have "\<forall>c\<in>set pw. c \<notin> enabled_classes use_lowercase use_uppercase use_digits \<longrightarrow>
                      c \<in> set s"
    by blast
  moreover from sub have "\<not> (\<exists>c\<in>set pw. c \<in> set special_chars \<and> c \<notin> set s \<and>
                        c \<notin> enabled_classes use_lowercase use_uppercase use_digits)"
    by blast
  ultimately show ?thesis using pool by blast
qed

text \<open>The theorem at the custom string \<open>~\<close>, which is no default special character.\<close>

theorem C5_custom_replaces_default_witness:
  "generate_password (\<lambda>i. 11 * i + 30) 5 True True False True (Some ''~'') =
     Some (Inr ''EP~kv'') \<and>
   chars True True False True (Some ''~'') = lowercase_chars @ uppercase_chars @ ''~'' \<and>
   \<not> list_ex (\<lambda>c. c \<in> set special_chars \<and> c \<notin> set ''~'' \<and>
                   c \<notin> enabled_classes True True False) ''EP~kv''"
proof -
  have run: "generate_password (\<lambda>i. 11 * i + 30) 5 True True False True (Some ''~'') =
      Some (Inr ''EP~kv'')"
    by code_simp
  have ne: "''~'' \<noteq> []" by simp
  from C5_custom_replaces_default [OF ne run] run show ?thesis
    by (simp add: list_ex_iff)
qed

text \<open>
  Claim C6. With the special flag true and the custom special string absent or empty,
  \<^verbatim>\<open>generate_password\<close> behaves as if the built-in default special set had been passed
  as the custom string: the default set is appended to the pool, and the check asks for a
  character of the default set.
\<close>

theorem C6_absent_custom_is_default:
  assumes "custom_special = None \<or> custom_special = Some []"
  shows "generate_password rnd len use_lowercase use_uppercase use_digits True custom_special =
           generate_password rnd len use_lowercase use_uppercase use_digits True
             (Some special_chars) \<and>
         chars use_lowercase use_uppercase use_digits True custom_special =
           (if use_lowercase then lowercase_chars else []) @
           (if use_uppercase then uppercase_chars else []) @
           (if use_digits then digit_chars else []) @ special_chars \<and>
         password_meets_requirements pw use_lowercase use_uppercase use_digits True
             custom_special =
           (password_meets_requirements pw use_lowercase use_uppercase use_digits False
              custom_special \<and>
            list_ex (\<lambda>c. c \<in> set special_chars) pw)"
proof -
  from assms have cls: "special_class custom_special = special_chars"
    by (auto simp: special_class_def)
  have dflt: "special_class (Some special_chars) = special_chars"
    by (simp add: special_class_def)
  have pool: "chars use_lowercase use_uppercase use_digits True custom_special =
      chars use_lowercase use_uppercase use_digits True (Some special_chars)"
    by (simp add: chars_append cls dflt)
  have check: "\<And>p. password_meets_requirements p use_lowercase use_uppercase use_digits True
        custom_special =
      password_meets_requirements p use_lowercase use_uppercase use_digits True
        (Some special_chars)"
    by (simp add: meets_iff cls dflt)
  have "generate_password rnd len use_lowercase use_uppercase use_digits True custom_special =
      generate_password rnd len use_lowercase use_uppercase use_digits True (Some special_chars)"
    by (rule generate_password_cong_requirements [OF pool check])
  moreover have "chars use_lowercase use_uppercase use_digits True custom_special =
           (if use_lowercase then lowercase_chars else []) @
           (if use_uppercase then uppercase_chars else []) @
           (if use_digits then digit_chars else []) @ special_chars"
    by (simp add: chars_append cls)
  moreover have "password_meets_requirements pw use_lowercase use_uppercase use_digits True
             custom_special =
           (password_meets_requirements pw use_lowercase use_uppercase use_digits False
              custom_special \<and>
            list_ex (\<lambda>c. c \<in> set special_chars) pw)"
    by (simp add: meets_iff cls list_ex_iff)
  ultimately show ?thesis by blast
qed

text \<open>
  The theorem at an empty custom string, with the digit and special flags set.
\<close>

theorem C6_absent_custom_is_default_witness:
  "generate_password (\<lambda>i. 7 * i + 3) 3 False False True True (Some []) = Some (Inr ''3!*'') \<and>
   generate_password (\<lambda>i. 7 * i + 3) 3 False False True True (Some special_chars) =
     Some (Inr ''3!*'') \<and>
   chars False False True True (Some []) = digit_chars @ special_chars \<and>
   password_meets_requirements ''3!*'' False False True True (Some [])"
proof -
  have run: "generate_password (\<lambda>i. 7 * i + 3) 3 False False True True (Some []) =
      Some (Inr ''3!*'')"
    by code_simp
  have absent: "Some [] = None \<or> Some [] = Some ([]::string)" by simp
  have digit: "password_meets_requirements ''3!*'' False False True False (Some [])"
    by code_simp
  have special: "list_ex (\<lambda>c. c \<in> set special_chars) ''3!*''"
    by code_simp
  from C6_absent_custom_is_default [OF absent, of "\<lambda>i. 7 * i + 3" 3 False False True "''3!*''"]
    run digit special
  show ?thesis by simp
qed

text \<open>
  Claim C7. At length 1 with the lowercase, uppercase and digit flags true, no string of
  length 1 passes \<^verbatim>\<open>_password_meets_requirements\<close>, and \<^verbatim>\<open>generate_password\<close> does not
  return, whatever the random draws are.
\<close>

theorem C7_length_one_three_classes_diverges:
  "(\<forall>pw. length pw = 1 \<longrightarrow>
      \<not> password_meets_requirements pw True True True use_special custom_special) \<and>
   generate_password rnd 1 True True True use_special custom_special = None"
proof -
  have no: "\<not> password_meets_requirements pw True True True use_special custom_special"
    if "length pw = 1" for pw
  proof -
    from that obtain c where pw: "pw = [c]"
      by (cases pw) simp_all
    from classes_disjoint(1) have "\<not> (c \<in> set lowercase_chars \<and> c \<in> set uppercase_chars)"
      by blast
    with pw show ?thesis by (auto simp: meets_iff)
  qed
  have ne: "chars True True True use_special custom_special \<noteq> []"
    by (simp add: chars_empty_iff)
  have "generate_password rnd 1 True True True use_special custom_special = None"
  proof (rule generate_password_never [OF _ ne])
    fix pw :: string
    assume "length pw = nat 1"
    then have "length pw = 1" by simp
    then show "\<not> password_meets_requirements pw True True True use_special custom_special"
      by (rule no)
  qed
  with no show ?thesis by blast
qed

text \<open>
  The theorem at the one-character string \<open>a\<close> and the random source \<open>0, 1, 2, \<dots>\<close>.
\<close>

theorem C7_length_one_three_classes_diverges_witness:
  "length ''a'' = 1 \<and> \<not> password_meets_requirements ''a'' True True True False None \<and>
   generate_password (\<lambda>i. i) 1 True True True False None = None"
  using C7_length_one_three_classes_diverges [of False None "\<lambda>i. i"]
  by simp

text \<open>
  Claim C8. At length 4 with only the digit flag true, \<^verbatim>\<open>generate_password\<close> returns
  for every sequence of random draws: the first drawn string passes the check, is returned
  without a redraw, and consists of 4 digits.
\<close>

theorem C8_four_digits_terminates:
  "\<exists>pw. generate_password rnd 4 False False True False custom_special = Some (Inr pw) \<and>
        draw rnd 0 (chars False False True False custom_special) 4 = Inr pw \<and>
        length pw = 4 \<and> (\<forall>c\<in>set pw. c \<in> set digit_chars)"
proof -
  let ?seq = "chars False False True False custom_special"
  have pool: "?seq = digit_chars" by (simp add: chars_append)
  have ne: "?seq \<noteq> []" by (simp add: chars_empty_iff)
  from draw_nonempty [OF ne, of rnd 0 4] obtain p0 where
    p0: "draw rnd 0 ?seq 4 = Inr p0" "length p0 = nat 4" "set p0 \<subseteq> set ?seq"
    by blast
  from p0(2) have len: "length p0 = 4" by simp
  from p0(3) pool have digits: "\<forall>c\<in>set p0. c \<in> set digit_chars" by auto
  from len obtain c rest where "p0 = c # rest" by (cases p0) simp_all
  with digits have "\<exists>c\<in>set p0. c \<in> set digit_chars" by simp
  then have "password_meets_requirements p0 False False True False custom_special"
    by (simp add: meets_iff)
  from generate_password_accept_first [OF p0(1) ne this] p0(1) len digits
  show ?thesis by blast
qed

text \<open>
  The theorem at the random source \<open>8, 11, 14, 17, \<dots>\<close>, which draws \<open>8147\<close>.
\<close>

theorem C8_four_digits_terminates_witness:
  "generate_password (\<lambda>i. 3 * i + 8) 4 False False True False None = Some (Inr ''8147'') \<and>
   length ''8147'' = 4 \<and> list_all (\<lambda>c. c \<in> set digit_chars) ''8147''"
proof -
  have run: "generate_password (\<lambda>i. 3 * i + 8) 4 False False True False None =
      Some (Inr ''8147'')"
    by code_simp
  from C8_four_digits_terminates [of "\<lambda>i. 3 * i + 8" None] obtain pw where
    pw: "generate_password (\<lambda>i. 3 * i + 8) 4 False False True False None = Some (Inr pw)"
      "length pw = 4" "\<forall>c\<in>set pw. c \<in> set digit_chars"
    by blast
  from pw(1) run have "pw = ''8147''" by simp
  with pw(2,3) run show ?thesis by (simp add: list_all_iff)
qed

text \<open>
  Claim C9. With the special flag false the argument \<^verbatim>\<open>custom_special\<close> has no effect:
  for any two values of it, and the same length, flags and random draws, the pool, the
  requirement check and the outcome of \<^verbatim>\<open>generate_password\<close> are the same.
\<close>

theorem C9_custom_ignored_without_special:
  "chars use_lowercase use_uppercase use_digits False custom_special =
     chars use_lowercase use_uppercase use_digits False custom_special' \<and>
   password_meets_requirements pw use_lowercase use_uppercase use_digits False custom_special =
     password_meets_requirements pw use_lowercase use_uppercase use_digits False
       custom_special' \<and>
   generate_password rnd len use_lowercase use_uppercase use_digits False custom_special =
     generate_password rnd len use_lowercase use_uppercase use_digits False custom_special'"
proof -
  have pool: "chars use_lowercase use_uppercase use_digits False custom_special =
     chars use_lowercase use_uppercase use_digits False custom_special'"
    by (simp add: chars_append)
  have check: "\<And>p. password_meets_requirements p use_lowercase use_uppercase use_digits False
        custom_special =
      password_meets_requirements p use_lowercase use_uppercase use_digits False
        custom_special'"
    by (simp add: meets_iff)
  from generate_password_cong_requirements [OF pool check] pool check show ?thesis
    by blast
qed

text \<open>
  Claim C10. \<^verbatim>\<open>generate_password\<close> does not validate the length: for a length of at
  most 0 with at least one flag true, every draw is the empty string, the empty string
  fails the requirement check, and \<^verbatim>\<open>generate_password\<close> does not return.
\<close>

theorem C10_nonpositive_length_diverges:
  assumes "len \<le> 0"
    and "use_lowercase \<or> use_uppercase \<or> use_digits \<or> use_special"
  shows "draw rnd pos (chars use_lowercase use_uppercase use_digits use_special custom_special)
           len = Inr [] \<and>
         \<not> password_meets_requirements [] use_lowercase use_uppercase use_digits use_special
             custom_special \<and>
         generate_password rnd len use_lowercase use_uppercase use_digits use_special
           custom_special = None"
proof -
  from assms(2) have reject:
    "\<not> password_meets_requirements [] use_lowercase use_uppercase use_digits use_special
         custom_special"
    by (auto simp: meets_iff)
  from assms(2) have ne:
    "chars use_lowercase use_uppercase use_digits use_special custom_special \<noteq> []"
    by (simp add: chars_empty_iff)
  have "generate_password rnd len use_lowercase use_uppercase use_digits use_special
           custom_special = None"
  proof (rule generate_password_never [OF _ ne])
    fix pw :: string
    assume "length pw = nat len"
    with assms(1) have "pw = []" by simp
    with reject show "\<not> password_meets_requirements pw use_lowercase use_uppercase use_digits
        use_special custom_special"
      by simp
  qed
  with reject draw_empty [OF assms(1)] show ?thesis by blast
qed

text \<open>
  The theorem at length \<open>-3\<close> with the lowercase and special flags set.
\<close>

theorem C10_nonpositive_length_diverges_witness:
  "draw (\<lambda>i. i) 0 (chars True False False True None) (- 3) = Inr [] \<and>
   \<not> password_meets_requirements [] True False False True None \<and>
   generate_password (\<lambda>i. i) (- 3) True False False True None = None"
proof -
  have len: "(- 3::int) \<le> 0" by simp
  have flags: "True \<or> False \<or> False \<or> True" by simp
  from C10_nonpositive_length_diverges [OF len flags] show ?thesis by blast
qed

end
